theory Spec2Isabelle
  imports Complex_Main
begin

section \<open>Text: Python strings as lists of code points\<close>

text \<open>
  A Python \<open>str\<close> is a sequence of Unicode code points. The extractor compares
  characters far outside ASCII (the CJK unit words, the full-width yen sign), so a string
  is modelled as a list of code points, each a natural number. ASCII text is written
  with \<open>ascii\<close>; every other character is given by its code point.
\<close>

type_synonym ustr = "nat list"

definition ascii :: "string \<Rightarrow> ustr" where
  "ascii s = map of_char s"

text \<open>
  \<open>str.isspace\<close> for one character, which is also what \<open>str.strip()\<close> removes and what
  \<open>\s\<close> matches in a \<open>str\<close> pattern: the fixed white-space table of the interpreter.
\<close>

definition isspace :: "nat \<Rightarrow> bool" where
  "isspace c \<longleftrightarrow>
     (0x09 \<le> c \<and> c \<le> 0x0D) \<or> (0x1C \<le> c \<and> c \<le> 0x20) \<or> c = 0x85 \<or> c = 0xA0 \<or>
     c = 0x1680 \<or> (0x2000 \<le> c \<and> c \<le> 0x200A) \<or> c = 0x2028 \<or> c = 0x2029 \<or>
     c = 0x202F \<or> c = 0x205F \<or> c = 0x3000"

text \<open>The characters at which \<open>str.splitlines()\<close> breaks a line.\<close>

definition is_linebreak :: "nat \<Rightarrow> bool" where
  "is_linebreak c \<longleftrightarrow>
     (0x0A \<le> c \<and> c \<le> 0x0D) \<or> (0x1C \<le> c \<and> c \<le> 0x1E) \<or> c = 0x85 \<or>
     c = 0x2028 \<or> c = 0x2029"

text \<open>\<open>s.strip()\<close> and \<open>s.strip(chars)\<close>: drop from both ends.\<close>

definition strip :: "ustr \<Rightarrow> ustr" where
  "strip s = rev (dropWhile isspace (rev (dropWhile isspace s)))"

definition strip_chars :: "ustr \<Rightarrow> ustr \<Rightarrow> ustr" where
  "strip_chars cs s =
     rev (dropWhile (\<lambda>c. c \<in> set cs) (rev (dropWhile (\<lambda>c. c \<in> set cs) s)))"

text \<open>
  \<open>s.splitlines()\<close>: the text up to each line break is one line, a carriage return
  directly followed by a line feed is one break, and a break at the very end opens no
  further line. \<open>cur\<close> is the line read so far.
\<close>

fun split_acc :: "ustr \<Rightarrow> ustr \<Rightarrow> ustr list" where
  "split_acc cur [] = (if cur = [] then [] else [cur])"
| "split_acc cur [c] = (if is_linebreak c then [cur] else [cur @ [c]])"
| "split_acc cur (c # d # ds) =
     (if is_linebreak c
      then cur # (if c = 0x0D \<and> d = 0x0A then split_acc [] ds else split_acc [] (d # ds))
      else split_acc (cur @ [c]) (d # ds))"

definition splitlines :: "ustr \<Rightarrow> ustr list" where
  "splitlines s = split_acc [] s"

text \<open>\<open>sep.join(xs)\<close>.\<close>

fun join :: "ustr \<Rightarrow> ustr list \<Rightarrow> ustr" where
  "join sep [] = []"
| "join sep [x] = x"
| "join sep (x # y # ys) = x @ sep @ join sep (y # ys)"

text \<open>\<open>w in s\<close> for strings: \<open>w\<close> occurs in \<open>s\<close> as a contiguous piece.\<close>

fun contains :: "ustr \<Rightarrow> ustr \<Rightarrow> bool" where
  "contains w [] = (w = [])"
| "contains w (c # cs) = (take (length w) (c # cs) = w \<or> contains w cs)"

text \<open>
  \<open>s.replace(w, "")\<close>: every occurrence of \<open>w\<close> is removed, scanning from the left and
  resuming after each removed occurrence. With an empty \<open>w\<close> the string is unchanged.
\<close>

function remove_all :: "ustr \<Rightarrow> ustr \<Rightarrow> ustr" where
  "remove_all w [] = []"
| "remove_all w (c # cs) =
     (if w \<noteq> [] \<and> take (length w) (c # cs) = w
      then remove_all w (drop (length w) (c # cs))
      else c # remove_all w cs)"
  by pat_completeness auto
termination
  by (relation "measure (\<lambda>(w, s). length s)") auto

text \<open>The slice \<open>s[a:b]\<close>.\<close>

definition slice :: "ustr \<Rightarrow> nat \<Rightarrow> nat \<Rightarrow> ustr" where
  "slice s a b = take (b - a) (drop a s)"

section \<open>The Unicode tables of the interpreter\<close>

text \<open>
  Three properties of a character come from the Unicode database built into the
  interpreter, which is not part of the repository: whether it is a decimal digit (and
  then its digit value), which both \<open>\d\<close> and \<open>float\<close> consult; whether it is
  alphanumeric, which together with the underscore decides \<open>\w\<close> and hence \<open>\b\<close>;
  and its upper-case mapping, which \<open>str.upper()\<close> applies character by character.
  They are a parameter of every function that depends on them.
\<close>

record ucd =
  decimal :: "nat \<Rightarrow> nat option"
  alnum :: "nat \<Rightarrow> bool"
  upper_map :: "nat \<Rightarrow> ustr"

definition upper :: "ucd \<Rightarrow> ustr \<Rightarrow> ustr" where
  "upper U s = concat (map (upper_map U) s)"

definition is_word :: "ucd \<Rightarrow> nat \<Rightarrow> bool" where
  "is_word U c \<longleftrightarrow> alnum U c \<or> c = 0x5F"

text \<open>
  The tables for the characters that occur in the examples: ASCII, the CJK unified
  ideographs U+4E00 to U+9FFF (letters, hence alphanumeric) and the full-width digits;
  the long s is the one character outside ASCII that upper-cases to a letter of "USD".
\<close>

definition basic_ucd :: ucd where
  "basic_ucd = \<lparr>
     decimal = (\<lambda>c. if 0x30 \<le> c \<and> c \<le> 0x39 then Some (c - 0x30)
                     else if 0xFF10 \<le> c \<and> c \<le> 0xFF19 then Some (c - 0xFF10) else None),
     alnum = (\<lambda>c. (0x30 \<le> c \<and> c \<le> 0x39) \<or> (0x41 \<le> c \<and> c \<le> 0x5A) \<or>
                   (0x61 \<le> c \<and> c \<le> 0x7A) \<or> (0x4E00 \<le> c \<and> c \<le> 0x9FFF) \<or>
                   (0xFF10 \<le> c \<and> c \<le> 0xFF19)),
     upper_map = (\<lambda>c. if 0x61 \<le> c \<and> c \<le> 0x7A then [c - 0x20]
                       else if c = 0x17F then [0x53] else [c]) \<rparr>"

section \<open>Regular expressions: the part of \<open>re\<close> the patterns use\<close>

text \<open>
  The patterns are built from literals, the classes \<open>\d\<close>, \<open>\s\<close>, \<open>\S\<close> and a
  bracketed set, greedy repetition of a class, an optional part, sequence, alternation,
  the word boundary \<open>\b\<close> and the one named group. The group \<open>(a|b)\<close> around a unit
  alternative is never read back, so it is modelled as the alternative alone.
\<close>

datatype cclass = CDigit | CSpace | CNonSpace | COneOf ustr

datatype rx =
    Lit ustr
  | Cls cclass
  | Star cclass
  | Plus cclass
  | Opt rx
  | Seq rx rx
  | Alt rx rx
  | WordB
  | Grp rx

fun cmatch :: "ucd \<Rightarrow> cclass \<Rightarrow> nat \<Rightarrow> bool" where
  "cmatch U CDigit c = (decimal U c \<noteq> None)"
| "cmatch U CSpace c = isspace c"
| "cmatch U CNonSpace c = (\<not> isspace c)"
| "cmatch U (COneOf cs) c = (c \<in> set cs)"

text \<open>How many characters from position \<open>i\<close> on are in the class.\<close>

definition run :: "ucd \<Rightarrow> cclass \<Rightarrow> ustr \<Rightarrow> nat \<Rightarrow> nat" where
  "run U k s i = length (takeWhile (cmatch U k) (drop i s))"

text \<open>\<open>\b\<close> at position \<open>i\<close>: exactly one of the characters before and at \<open>i\<close> is a word
  character, where a position outside the string counts as none.\<close>

definition at_boundary :: "ucd \<Rightarrow> ustr \<Rightarrow> nat \<Rightarrow> bool" where
  "at_boundary U s i \<longleftrightarrow>
     ((0 < i \<and> i \<le> length s \<and> is_word U (s ! (i - 1))) \<noteq> (i < length s \<and> is_word U (s ! i)))"

text \<open>
  A backtracking matcher. A state is the current position and the span of the named
  group, if it has been matched. \<open>ms U s r st\<close> lists the states in which \<open>r\<close> can end
  when started in \<open>st\<close>, in the order in which the engine tries them: the longest
  repetition first, the left alternative first, the optional part present first.
\<close>

type_synonym mstate = "nat \<times> (nat \<times> nat) option"

primrec ms :: "ucd \<Rightarrow> ustr \<Rightarrow> rx \<Rightarrow> mstate \<Rightarrow> mstate list" where
  "ms U s (Lit w) st =
     (if take (length w) (drop (fst st) s) = w then [(fst st + length w, snd st)] else [])"
| "ms U s (Cls k) st =
     (if fst st < length s \<and> cmatch U k (s ! fst st) then [(fst st + 1, snd st)] else [])"
| "ms U s (Star k) st =
     map (\<lambda>n. (fst st + n, snd st)) (rev [0 ..< Suc (run U k s (fst st))])"
| "ms U s (Plus k) st =
     map (\<lambda>n. (fst st + n, snd st)) (rev [1 ..< Suc (run U k s (fst st))])"
| "ms U s (Opt r) st = ms U s r st @ [st]"
| "ms U s (Seq r1 r2) st = concat (map (ms U s r2) (ms U s r1 st))"
| "ms U s (Alt r1 r2) st = ms U s r1 st @ ms U s r2 st"
| "ms U s WordB st = (if at_boundary U s (fst st) then [st] else [])"
| "ms U s (Grp r) st = map (\<lambda>e. (fst e, Some (fst st, fst e))) (ms U s r st)"

text \<open>The match object: \<open>m.start()\<close>, \<open>m.end()\<close> and the span of the named group.\<close>

record rmatch =
  m_start :: nat
  m_end :: nat
  m_group :: "(nat \<times> nat) option"

text \<open>\<open>re.search\<close>: the first start position, from the left, at which the pattern
  matches, with the first way of matching there.\<close>

fun search_from :: "ucd \<Rightarrow> rx \<Rightarrow> ustr \<Rightarrow> nat list \<Rightarrow> rmatch option" where
  "search_from U r s [] = None"
| "search_from U r s (i # is) =
     (case ms U s r (i, None) of
        [] \<Rightarrow> search_from U r s is
      | e # _ \<Rightarrow> Some \<lparr> m_start = i, m_end = fst e, m_group = snd e \<rparr>)"

definition search :: "ucd \<Rightarrow> rx \<Rightarrow> ustr \<Rightarrow> rmatch option" where
  "search U r s = search_from U r s [0 ..< Suc (length s)]"

text \<open>
  \<open>re.sub(r, "", s)\<close>: from the left, every match is cut out and the scan resumes at
  its end; a character at which nothing matches is kept. Matching always looks at the
  whole of \<open>s\<close>, so \<open>\b\<close> sees the characters already cut out.
\<close>

function sub_from :: "ucd \<Rightarrow> rx \<Rightarrow> ustr \<Rightarrow> nat \<Rightarrow> ustr" where
  "sub_from U r s i =
     (if length s \<le> i then []
      else (case ms U s r (i, None) of
              [] \<Rightarrow> s ! i # sub_from U r s (Suc i)
            | e # _ \<Rightarrow> if i < fst e then sub_from U r s (fst e)
                       else s ! i # sub_from U r s (Suc i)))"
  by pat_completeness auto
termination
  by (relation "measure (\<lambda>(U, r, s, i). length s - i)") auto

definition re_sub :: "ucd \<Rightarrow> rx \<Rightarrow> ustr \<Rightarrow> ustr" where
  "re_sub U r s = sub_from U r s 0"

section \<open>Numbers and the confidence score\<close>

text \<open>
  Python floats are modelled by the rationals they stand for: \<open>float("3.8")\<close> is the
  rational 19/5 and the confidence bonuses add exactly. Rounding to the nearest double
  and overflow to infinity are outside the model.

  \<open>float(s)\<close> on the numerals that can reach it, a run of decimal digits with an
  optional fractional part: the digits are read by their Unicode digit value. \<open>None\<close>
  stands for the \<open>ValueError\<close> that \<open>to_float\<close> catches. The other forms that
  \<open>float\<close> accepts (sign, exponent, underscores, surrounding blanks, "inf" and "nan")
  never occur in text matched by \<open>\d+(?:\.\d+)?\<close> and are not modelled.
\<close>

definition digits_val :: "nat list \<Rightarrow> nat" where
  "digits_val ds = foldl (\<lambda>a d. 10 * a + d) 0 ds"

definition py_float :: "ucd \<Rightarrow> ustr \<Rightarrow> rat option" where
  "py_float U s =
     (let ip = takeWhile (\<lambda>c. c \<noteq> 0x2E) s; rest = dropWhile (\<lambda>c. c \<noteq> 0x2E) s in
      case those (map (decimal U) ip) of
        None \<Rightarrow> None
      | Some ds \<Rightarrow>
          if ds = [] then None
          else (case rest of
                  [] \<Rightarrow> Some (of_nat (digits_val ds))
                | _ # fp \<Rightarrow>
                    (case those (map (decimal U) fp) of
                       None \<Rightarrow> None
                     | Some fs \<Rightarrow>
                         if fs = [] then None
                         else Some (of_nat (digits_val ds)
                                    + of_nat (digits_val fs) / 10 ^ length fs))))"

text \<open>
  \<open>_to_float(m.group(name))\<close>: the text of the named group of a match in \<open>s\<close>,
  converted. A group that took no part in the match reads as \<open>None\<close>, on which
  \<open>float\<close> raises as well.
\<close>

definition to_float :: "ucd \<Rightarrow> ustr \<Rightarrow> rmatch \<Rightarrow> rat option" where
  "to_float U s m =
     (case m_group m of None \<Rightarrow> None | Some (a, b) \<Rightarrow> py_float U (slice s a b))"

text \<open>\<open>round(x, 2)\<close>: to the nearest hundredth, a tie going to the even one.\<close>

definition round_half_even :: "rat \<Rightarrow> int" where
  "round_half_even x =
     (let f = \<lfloor>x\<rfloor>; d = x - of_int f in
      if d < 1 / 2 then f else if 1 / 2 < d then f + 1 else if even f then f else f + 1)"

definition round2 :: "rat \<Rightarrow> rat" where
  "round2 x = of_int (round_half_even (x * 100)) / 100"

section \<open>The extractor\<close>

record procurement_record =
  item_name :: "ustr option"
  specification_field :: "ustr option"
  quantity :: "rat option"
  unit_price :: "rat option"
  currency :: ustr
  source_text :: ustr
  confidence :: rat

subsection \<open>The patterns\<close>

text \<open>\<open>\d+(?:\.\d+)?\<close>\<close>

definition number_rx :: rx where
  "number_rx = Seq (Plus CDigit) (Opt (Seq (Lit [0x2E]) (Plus CDigit)))"

text \<open>
  The price patterns: a number, blanks and the word U+5143 (yuan) or U+5757 (kuai) at a
  word boundary; the full-width yen sign U+FFE5, blanks and a number; "RMB", blanks and
  a number.
\<close>

definition price_patterns :: "rx list" where
  "price_patterns =
     [Seq (Grp number_rx) (Seq (Star CSpace) (Seq (Alt (Lit [0x5143]) (Lit [0x5757])) WordB)),
      Seq (Lit [0xFFE5]) (Seq (Star CSpace) (Seq (Grp number_rx) WordB)),
      Seq (Lit (ascii ''RMB'')) (Seq (Star CSpace) (Seq (Grp number_rx) WordB))]"

text \<open>
  The specification patterns: a number, blanks and a unit at a word boundary, the units
  being U+7C73 (metre), m, M; then cm, CM, U+6BEB U+7C73 (millimetre), mm, MM; then
  U+74E6 (watt), W, w; and last a label, U+578B U+53F7 (model), U+89C4 U+683C
  (specification) or U+5C3A U+5BF8 (size), an optional colon, ASCII or full-width
  U+FF1A, and a run of non-blank characters.
\<close>

definition spec_patterns :: "rx list" where
  "spec_patterns =
     [Seq number_rx (Seq (Star CSpace)
        (Seq (Alt (Lit [0x7C73]) (Alt (Lit (ascii ''m'')) (Lit (ascii ''M'')))) WordB)),
      Seq number_rx (Seq (Star CSpace)
        (Seq (Alt (Lit (ascii ''cm'')) (Alt (Lit (ascii ''CM'')) (Alt (Lit [0x6BEB, 0x7C73])
           (Alt (Lit (ascii ''mm'')) (Lit (ascii ''MM'')))))) WordB)),
      Seq number_rx (Seq (Star CSpace)
        (Seq (Alt (Lit [0x74E6]) (Alt (Lit (ascii ''W'')) (Lit (ascii ''w'')))) WordB)),
      Seq (Alt (Lit [0x578B, 0x53F7]) (Alt (Lit [0x89C4, 0x683C]) (Lit [0x5C3A, 0x5BF8])))
        (Seq (Star CSpace) (Seq (Opt (Cls (COneOf [0x3A, 0xFF1A])))
           (Seq (Star CSpace) (Plus CNonSpace))))]"

text \<open>The pattern of the first-line fallback and of the item-name cleaning: a number,
  blanks and one of U+7C73, m, cm, mm, U+74E6, W at a word boundary.\<close>

definition unit_token_rx :: rx where
  "unit_token_rx =
     Seq number_rx (Seq (Star CSpace)
       (Seq (Alt (Lit [0x7C73]) (Alt (Lit (ascii ''m'')) (Alt (Lit (ascii ''cm''))
          (Alt (Lit (ascii ''mm'')) (Alt (Lit [0x74E6]) (Lit (ascii ''W''))))))) WordB))"


definition qty_patterns :: "rx list" where
  "qty_patterns =
     [Seq (Grp number_rx) (Seq (Star CSpace)
        (Seq (Alt (Lit [0x4E2A]) (Alt (Lit [0x6761]) (Alt (Lit [0x5957]) (Alt (Lit [0x7BB1])
           (Alt (Lit [0x4EF6]) (Alt (Lit [0x53EA]) (Alt (Lit [0x6839]) (Lit [0x5377])))))))) WordB)),
      Seq (Lit [0x6570, 0x91CF]) (Seq (Star CSpace) (Seq (Opt (Cls (COneOf [0x3A, 0xFF1A])))
        (Seq (Star CSpace) (Seq (Grp number_rx) WordB))))]"

text \<open>
  The filler phrases, in the order of the source: price, cheap, want-or-not, have a look,
  is-that-ok, will-it-do, how-about-it, quote-me.
\<close>

definition noisy_words :: "ustr list" where
  "noisy_words =
     [[0x4EF7, 0x683C], [0x4FBF, 0x5B9C], [0x8981, 0x4E0D, 0x8981], [0x770B, 0x770B],
      [0x53EF, 0x4EE5, 0x5417], [0x884C, 0x4E0D, 0x884C], [0x600E, 0x4E48, 0x6837],
      [0x62A5, 0x4E2A, 0x4EF7]]"

text \<open>The characters of \<open>cleaned.strip(...)\<close>: space, comma, full-width comma U+FF0C,
  colon, full-width colon U+FF1A, hyphen, em dash U+2014, slash.\<close>

definition name_strip_chars :: "nat list" where
  "name_strip_chars = [0x20, 0x2C, 0xFF0C, 0x3A, 0xFF1A, 0x2D, 0x2014, 0x2F]"

subsection \<open>The loops over lines and patterns\<close>

text \<open>
  The inner loop of the price and quantity passes: the first pattern that matches the
  line sets the value to the conversion of its group and leaves the loop.
\<close>

fun scan_pats :: "ucd \<Rightarrow> rx list \<Rightarrow> ustr \<Rightarrow> rat option" where
  "scan_pats U [] line = None"
| "scan_pats U (p # ps) line =
     (case search U p line of
        Some m \<Rightarrow> to_float U line m
      | None \<Rightarrow> scan_pats U ps line)"

text \<open>The outer loop: it stops at the first line after which a value is set.\<close>

fun scan_lines :: "ucd \<Rightarrow> rx list \<Rightarrow> ustr list \<Rightarrow> rat option" where
  "scan_lines U pats [] = None"
| "scan_lines U pats (line # lns) =
     (case scan_pats U pats line of
        Some v \<Rightarrow> Some v
      | None \<Rightarrow> scan_lines U pats lns)"

text \<open>\<open>any(re.search(pat, line) for pat in spec_patterns)\<close>\<close>

definition any_match :: "ucd \<Rightarrow> rx list \<Rightarrow> ustr \<Rightarrow> bool" where
  "any_match U pats line = list_ex (\<lambda>p. search U p line \<noteq> None) pats"

subsection \<open>The passes, each updating the record\<close>

definition normalize_lines :: "ustr \<Rightarrow> ustr list" where
  "normalize_lines text = filter (\<lambda>line. line \<noteq> []) (map strip (splitlines text))"

definition price_pass :: "ucd \<Rightarrow> ustr list \<Rightarrow> procurement_record \<Rightarrow> procurement_record" where
  "price_pass U lines result =
     (case scan_lines U price_patterns lines of
        Some found_price \<Rightarrow>
          result\<lparr> unit_price := Some found_price, confidence := confidence result + 20 / 100 \<rparr>
      | None \<Rightarrow> result)"

definition currency_pass :: "ucd \<Rightarrow> ustr \<Rightarrow> procurement_record \<Rightarrow> procurement_record" where
  "currency_pass U text result =
     (if 0x24 \<in> set text \<or> contains (ascii ''USD'') (upper U text)
      then result\<lparr> currency := ascii ''USD'' \<rparr> else result)"

definition find_spec :: "ucd \<Rightarrow> ustr list \<Rightarrow> ustr option" where
  "find_spec U lines =
     (case find (any_match U spec_patterns) lines of
        Some line \<Rightarrow> Some line
      | None \<Rightarrow>
          (case lines of
             [] \<Rightarrow> None
           | l0 # _ \<Rightarrow> if search U unit_token_rx l0 \<noteq> None then Some l0 else None))"

definition spec_pass :: "ucd \<Rightarrow> ustr list \<Rightarrow> procurement_record \<Rightarrow> procurement_record" where
  "spec_pass U lines result =
     (case find_spec U lines of
        Some found_spec \<Rightarrow>
          result\<lparr> specification_field := Some found_spec, confidence := confidence result + 15 / 100 \<rparr>
      | None \<Rightarrow> result)"

definition qty_pass :: "ucd \<Rightarrow> ustr list \<Rightarrow> procurement_record \<Rightarrow> procurement_record" where
  "qty_pass U lines result =
     (case scan_lines U qty_patterns lines of
        Some found_qty \<Rightarrow>
          result\<lparr> quantity := Some found_qty, confidence := confidence result + 10 / 100 \<rparr>
      | None \<Rightarrow> result)"

text \<open>The cleaning of the first line: the filler phrases are removed one after the
  other, then the unit tokens, then the ends are stripped.\<close>

definition clean_name :: "ucd \<Rightarrow> ustr \<Rightarrow> ustr" where
  "clean_name U first =
     strip_chars name_strip_chars
       (re_sub U unit_token_rx (foldl (\<lambda>cleaned w. remove_all w cleaned) first noisy_words))"

definition name_pass :: "ucd \<Rightarrow> ustr \<Rightarrow> procurement_record \<Rightarrow> procurement_record" where
  "name_pass U first result =
     (let cleaned = clean_name U first in
      if cleaned \<noteq> []
      then result\<lparr> item_name := Some cleaned, confidence := confidence result + 15 / 100 \<rparr>
      else result\<lparr> item_name := Some first, confidence := confidence result + 5 / 100 \<rparr>)"

definition clamp_pass :: "procurement_record \<Rightarrow> procurement_record" where
  "clamp_pass result = result\<lparr> confidence := max 0 (min 1 (round2 (confidence result))) \<rparr>"

subsection \<open>\<open>extract_procurement_fields\<close>\<close>

text \<open>
  The argument is a string, on which \<open>raw_text or ""\<close> is the identity. With no line
  left the default record is returned with confidence 0; otherwise the passes run in the
  order of the source. \<open>lines[0]\<close> is read only where \<open>lines\<close> is not empty.
\<close>

definition default_record :: "ustr \<Rightarrow> ustr list \<Rightarrow> procurement_record" where
  "default_record text lines =
     \<lparr> item_name = None, specification_field = None, quantity = None, unit_price = None,
       currency = ascii ''CNY'',
       source_text = (if lines \<noteq> [] then join [0x20] lines else text),
       confidence = 50 / 100 \<rparr>"

definition extract_procurement_fields :: "ucd \<Rightarrow> ustr \<Rightarrow> procurement_record" where
  "extract_procurement_fields U raw_text =
     (let text = strip raw_text;
          lines = normalize_lines text;
          result = default_record text lines
      in case lines of
           [] \<Rightarrow> result\<lparr> confidence := 0 \<rparr>
         | first # _ \<Rightarrow>
             clamp_pass (name_pass U first (qty_pass U lines (spec_pass U lines
               (currency_pass U text (price_pass U lines result))))))"

section \<open>The score in closed form\<close>

text \<open>The score before rounding and clamping: the base and the bonus of every pass
  that found its field; and the same sum counted in hundredths.\<close>

definition name_bonus :: "ucd \<Rightarrow> ustr \<Rightarrow> rat" where
  "name_bonus U first = (if clean_name U first \<noteq> [] then 15 / 100 else 5 / 100)"

definition raw_score :: "ucd \<Rightarrow> ustr list \<Rightarrow> rat" where
  "raw_score U lines =
     50 / 100
     + (if scan_lines U price_patterns lines \<noteq> None then 20 / 100 else 0)
     + (if find_spec U lines \<noteq> None then 15 / 100 else 0)
     + (if scan_lines U qty_patterns lines \<noteq> None then 10 / 100 else 0)
     + name_bonus U (hd lines)"

definition score_hundredths :: "bool \<Rightarrow> bool \<Rightarrow> bool \<Rightarrow> bool \<Rightarrow> int" where
  "score_hundredths p s q n =
     50 + (if p then 20 else 0) + (if s then 15 else 0) + (if q then 10 else 0)
        + (if n then 15 else 5)"

section \<open>Notions used to state the properties\<close>

text \<open>
  A syntactic reason why a pattern has no match in a string: a literal needs a
  character the string lacks, or a class that must match once has no member in it.
\<close>

primrec cannot_match :: "ucd \<Rightarrow> ustr \<Rightarrow> rx \<Rightarrow> bool" where
  "cannot_match U s (Lit w) = (\<not> list_all (\<lambda>c. c \<in> set s) w)"
| "cannot_match U s (Cls k) = (\<not> list_ex (cmatch U k) s)"
| "cannot_match U s (Star k) = False"
| "cannot_match U s (Plus k) = (\<not> list_ex (cmatch U k) s)"
| "cannot_match U s (Opt r) = False"
| "cannot_match U s (Seq r1 r2) = (cannot_match U s r1 \<or> cannot_match U s r2)"
| "cannot_match U s (Alt r1 r2) = (cannot_match U s r1 \<and> cannot_match U s r2)"
| "cannot_match U s WordB = False"
| "cannot_match U s (Grp r) = cannot_match U s r"

text \<open>
  The first match in line-major, pattern-minor order: all matches of all patterns in
  all lines, listed line by line and within a line pattern by pattern, and of these the
  first, with the line it was found in.
\<close>

definition all_matches :: "ucd \<Rightarrow> rx list \<Rightarrow> ustr list \<Rightarrow> (ustr \<times> rmatch) list" where
  "all_matches U pats lines =
     concat (map (\<lambda>line. concat (map (\<lambda>p. case search U p line of
                                                None \<Rightarrow> [] | Some m \<Rightarrow> [(line, m)]) pats)) lines)"

definition first_match :: "ucd \<Rightarrow> rx list \<Rightarrow> ustr list \<Rightarrow> (ustr \<times> rmatch) option" where
  "first_match U pats lines =
     (case all_matches U pats lines of [] \<Rightarrow> None | x # _ \<Rightarrow> Some x)"

text \<open>
  Two syntactic properties of a pattern: every named group in it is the number pattern;
  and every way through it passes a named group. And the property of a group span
  that its text converts to a number.
\<close>

primrec groups_are_numbers :: "rx \<Rightarrow> bool" where
  "groups_are_numbers (Lit w) = True"
| "groups_are_numbers (Cls k) = True"
| "groups_are_numbers (Star k) = True"
| "groups_are_numbers (Plus k) = True"
| "groups_are_numbers (Opt r) = groups_are_numbers r"
| "groups_are_numbers (Seq r1 r2) = (groups_are_numbers r1 \<and> groups_are_numbers r2)"
| "groups_are_numbers (Alt r1 r2) = (groups_are_numbers r1 \<and> groups_are_numbers r2)"
| "groups_are_numbers WordB = True"
| "groups_are_numbers (Grp r) = (r = number_rx)"

primrec sets_group :: "rx \<Rightarrow> bool" where
  "sets_group (Lit w) = False"
| "sets_group (Cls k) = False"
| "sets_group (Star k) = False"
| "sets_group (Plus k) = False"
| "sets_group (Opt r) = False"
| "sets_group (Seq r1 r2) = (sets_group r1 \<or> sets_group r2)"
| "sets_group (Alt r1 r2) = (sets_group r1 \<and> sets_group r2)"
| "sets_group WordB = False"
| "sets_group (Grp r) = True"

definition valid_group :: "ucd \<Rightarrow> ustr \<Rightarrow> (nat \<times> nat) option \<Rightarrow> bool" where
  "valid_group U s g =
     (case g of None \<Rightarrow> True | Some (a, b) \<Rightarrow> py_float U (slice s a b) \<noteq> None)"

text \<open>
  The cleaning of the first line with the ends trimmed of all white space and of the
  punctuation, the trimming that a reading of \<open>strip\<close> as "white space and
  punctuation" would give. The source trims U+0020 and the punctuation only.
\<close>

definition clean_name_trimming_blanks :: "ucd \<Rightarrow> ustr \<Rightarrow> ustr" where
  "clean_name_trimming_blanks U first =
     (let p = (\<lambda>c. isspace c \<or> c \<in> set name_strip_chars) in
      rev (dropWhile p (rev (dropWhile p
        (re_sub U unit_token_rx (foldl (\<lambda>cleaned w. remove_all w cleaned) first noisy_words))))))"




section \<open>Example inputs\<close>

text \<open>
  Scenario 1 of the specification, the sample of the source: four lines, "(lamp strip)
  3.4 (metres)", "(the price is already very cheap),", "3.8 (yuan)" and "(do you want
  it or not)", the words in brackets being CJK text.
\<close>

definition scenario1_line1 :: ustr where
  "scenario1_line1 = [0x706F, 0x5E26, 0x33, 0x2E, 0x34, 0x7C73]"

definition scenario1_line2 :: ustr where
  "scenario1_line2 = [0x4EF7, 0x683C, 0x5DF2, 0x7ECF, 0x5F88, 0x4FBF, 0x5B9C, 0x4E86, 0x2C]"

definition scenario1_line3 :: ustr where
  "scenario1_line3 = [0x33, 0x2E, 0x38, 0x5143]"

definition scenario1_line4 :: ustr where
  "scenario1_line4 = [0x4F60, 0x8981, 0x4E0D, 0x8981]"

definition scenario1 :: ustr where
  "scenario1 = scenario1_line1 @ [0x0A] @ scenario1_line2 @ [0x0A] @ scenario1_line3
               @ [0x0A] @ scenario1_line4"


text \<open>An input of blanks only: spaces, a line feed, an ideographic space, a tab.\<close>

definition blank_input :: ustr where
  "blank_input = [0x20, 0x20, 0x0A, 0x3000, 0x09]"

text \<open>A first line that leaves a tab when its two unit tokens are cut out: "5W",
  a tab, "5W".\<close>

definition tab_input :: ustr where
  "tab_input = [0x35, 0x57, 0x09, 0x35, 0x57]"



text \<open>A first line that is a unit token and nothing else: "5W".\<close>

definition watt_input :: ustr where
  "watt_input = [0x35, 0x57]"

lemma linebreak_isspace: "is_linebreak c \<Longrightarrow> isspace c"
  by (auto simp: is_linebreak_def isspace_def)

lemma dropWhile_all: "(\<forall>x\<in>set (dropWhile P s). P x) \<longleftrightarrow> (\<forall>x\<in>set s. P x)"
  by (induction s) auto

lemma strip_Nil_iff: "strip s = [] \<longleftrightarrow> (\<forall>c\<in>set s. isspace c)"
  by (simp add: strip_def dropWhile_eq_Nil_conv dropWhile_all)

lemma strip_has_nonspace: "strip s \<noteq> [] \<Longrightarrow> \<exists>c\<in>set (strip s). \<not> isspace c"
proof -
  assume a: "strip s \<noteq> []"
  let ?t = "dropWhile isspace (rev (dropWhile isspace s))"
  from a have "?t \<noteq> []" by (simp add: strip_def)
  then have "\<not> isspace (hd ?t)" "hd ?t \<in> set ?t"
    by (simp_all add: hd_dropWhile)
  then show ?thesis by (auto simp: strip_def)
qed

lemma lf_linebreak: "is_linebreak 10"
  by (simp add: is_linebreak_def)

lemma strip_nonempty: "c \<in> set s \<Longrightarrow> \<not> isspace c \<Longrightarrow> strip s \<noteq> []"
  by (auto simp: strip_Nil_iff)

lemma split_acc_covers:
  "c \<in> set cur \<union> set s \<Longrightarrow> \<not> is_linebreak c \<Longrightarrow> \<exists>seg\<in>set (split_acc cur s). c \<in> set seg"
  by (induction cur s rule: split_acc.induct) (auto simp: lf_linebreak split: if_splits)

lemma normalize_lines_Nil_iff: "normalize_lines (strip raw) = [] \<longleftrightarrow> strip raw = []"
proof
  assume a: "normalize_lines (strip raw) = []"
  show "strip raw = []"
  proof (rule ccontr)
    assume "strip raw \<noteq> []"
    then obtain c where c: "c \<in> set (strip raw)" "\<not> isspace c"
      using strip_has_nonspace by blast
    then have "\<not> is_linebreak c" using linebreak_isspace by blast
    with c obtain seg where "seg \<in> set (splitlines (strip raw))" "c \<in> set seg"
      using split_acc_covers[of c "[]" "strip raw"] by (auto simp: splitlines_def)
    with c have "strip seg \<in> set (normalize_lines (strip raw))"
      by (auto simp: normalize_lines_def strip_Nil_iff)
    with a show False by simp
  qed
next
  assume "strip raw = []"
  then show "normalize_lines (strip raw) = []"
    by (simp add: normalize_lines_def splitlines_def)
qed

lemma normalize_lines_nonempty: "line \<in> set (normalize_lines t) \<Longrightarrow> line \<noteq> []"
  by (auto simp: normalize_lines_def)

lemma join_Nil_iff: "join sep ls = [] \<longleftrightarrow> (ls = [] \<or> (ls = [[]]) \<or> (sep = [] \<and> (\<forall>l\<in>set ls. l = [])))"
  by (induction sep ls rule: join.induct) auto

lemma price_pass_eq:
  "price_pass U ls r =
     r\<lparr> unit_price := (if scan_lines U price_patterns ls \<noteq> None
                         then scan_lines U price_patterns ls else unit_price r),
        confidence := confidence r
          + (if scan_lines U price_patterns ls \<noteq> None then 20 / 100 else 0) \<rparr>"
  by (cases "scan_lines U price_patterns ls") (simp_all add: price_pass_def)

lemma spec_pass_eq:
  "spec_pass U ls r =
     r\<lparr> specification_field := (if find_spec U ls \<noteq> None
                                  then find_spec U ls else specification_field r),
        confidence := confidence r + (if find_spec U ls \<noteq> None then 15 / 100 else 0) \<rparr>"
  by (cases "find_spec U ls") (simp_all add: spec_pass_def)

lemma qty_pass_eq:
  "qty_pass U ls r =
     r\<lparr> quantity := (if scan_lines U qty_patterns ls \<noteq> None
                       then scan_lines U qty_patterns ls else quantity r),
        confidence := confidence r
          + (if scan_lines U qty_patterns ls \<noteq> None then 10 / 100 else 0) \<rparr>"
  by (cases "scan_lines U qty_patterns ls") (simp_all add: qty_pass_def)

lemma name_pass_eq:
  "name_pass U first r =
     r\<lparr> item_name := Some (if clean_name U first \<noteq> [] then clean_name U first else first),
        confidence := confidence r + name_bonus U first \<rparr>"
  by (simp add: name_pass_def name_bonus_def Let_def)

lemma currency_pass_eq:
  "currency_pass U text r =
     r\<lparr> currency := (if 0x24 \<in> set text \<or> contains (ascii ''USD'') (upper U text)
                       then ascii ''USD'' else currency r) \<rparr>"
  by (simp add: currency_pass_def)

lemma extract_no_lines:
  assumes "normalize_lines (strip raw) = []"
  shows "extract_procurement_fields U raw =
           \<lparr> item_name = None, specification_field = None, quantity = None, unit_price = None,
             currency = ascii ''CNY'', source_text = strip raw, confidence = 0 \<rparr>"
  using assms by (simp add: extract_procurement_fields_def default_record_def)

lemma extract_lines:
  assumes "normalize_lines (strip raw) = first # rest"
  shows "extract_procurement_fields U raw =
           \<lparr> item_name = Some (if clean_name U first \<noteq> [] then clean_name U first else first),
             specification_field = find_spec U (first # rest),
             quantity = scan_lines U qty_patterns (first # rest),
             unit_price = scan_lines U price_patterns (first # rest),
             currency = (if 0x24 \<in> set (strip raw) \<or> contains (ascii ''USD'') (upper U (strip raw))
                         then ascii ''USD'' else ascii ''CNY''),
             source_text = join [0x20] (first # rest),
             confidence = max 0 (min 1 (round2 (raw_score U (first # rest)))) \<rparr>"
proof -
  let ?ls = "first # rest"
  let ?d = "default_record (strip raw) ?ls"
  have e: "extract_procurement_fields U raw =
      clamp_pass (name_pass U first (qty_pass U ?ls (spec_pass U ?ls
        (currency_pass U (strip raw) (price_pass U ?ls ?d)))))"
    using assms by (simp add: extract_procurement_fields_def Let_def)
  show ?thesis
    unfolding e price_pass_eq spec_pass_eq qty_pass_eq name_pass_eq currency_pass_eq
      clamp_pass_def default_record_def raw_score_def
    by (cases "scan_lines U price_patterns ?ls"; cases "find_spec U ?ls";
        cases "scan_lines U qty_patterns ?ls") simp_all
qed

lemma extract_some_lines:
  assumes "normalize_lines (strip raw) \<noteq> []"
  shows "extract_procurement_fields U raw =
           \<lparr> item_name = Some (if clean_name U (hd (normalize_lines (strip raw))) \<noteq> []
                               then clean_name U (hd (normalize_lines (strip raw)))
                               else hd (normalize_lines (strip raw))),
             specification_field = find_spec U (normalize_lines (strip raw)),
             quantity = scan_lines U qty_patterns (normalize_lines (strip raw)),
             unit_price = scan_lines U price_patterns (normalize_lines (strip raw)),
             currency = (if 0x24 \<in> set (strip raw) \<or> contains (ascii ''USD'') (upper U (strip raw))
                         then ascii ''USD'' else ascii ''CNY''),
             source_text = join [0x20] (normalize_lines (strip raw)),
             confidence = max 0 (min 1 (round2 (raw_score U (normalize_lines (strip raw))))) \<rparr>"
proof -
  from assms obtain first rest where l: "normalize_lines (strip raw) = first # rest"
    by (cases "normalize_lines (strip raw)") auto
  show ?thesis unfolding extract_lines[OF l] l by simp
qed



lemma round2_of_hundredths: "round2 (of_int k / 100) = of_int k / 100"
  by (simp add: round2_def round_half_even_def)

lemma raw_score_hundredths:
  "raw_score U lines =
     of_int (score_hundredths (scan_lines U price_patterns lines \<noteq> None)
       (find_spec U lines \<noteq> None) (scan_lines U qty_patterns lines \<noteq> None)
       (clean_name U (hd lines) \<noteq> [])) / 100"
  by (simp add: raw_score_def name_bonus_def score_hundredths_def add_divide_distrib)

lemma score_hundredths_bounds: "55 \<le> score_hundredths p s q n \<and> score_hundredths p s q n \<le> 110"
  by (simp add: score_hundredths_def)


lemma clamp_of_hundredths:
  "0 \<le> k \<Longrightarrow> max 0 (min 1 (of_int k / 100 :: rat)) = of_int (min 100 k) / 100"
  by (simp add: min_def max_def)


lemma score_lower: "55 / 100 \<le> max 0 (min 1 (round2 (raw_score U lines)))"
proof -
  obtain k :: int where k: "raw_score U lines = of_int k / 100" "55 \<le> k"
    using raw_score_hundredths score_hundredths_bounds by blast
  then have "0 \<le> k" by simp
  show ?thesis
    unfolding k round2_of_hundredths clamp_of_hundredths[OF \<open>0 \<le> k\<close>]
    using k(2) by (simp add: min_def)
qed


section \<open>The matcher\<close>

lemma take_eq_set: "take n xs = w \<Longrightarrow> set w \<subseteq> set xs"
  by (auto dest: in_set_takeD)

lemma cannot_match_sound: "cannot_match U s r \<Longrightarrow> ms U s r st = []"
proof (induction r arbitrary: st)
  case (Lit w)
  then obtain c where c: "c \<in> set w" "c \<notin> set s" by (auto simp: list_all_iff)
  have "take (length w) (drop (fst st) s) \<noteq> w"
  proof
    assume "take (length w) (drop (fst st) s) = w"
    then have "set w \<subseteq> set (drop (fst st) s)" by (rule take_eq_set)
    with c show False by (auto dest: in_set_dropD)
  qed
  then show ?case by simp
next
  case (Cls k)
  then show ?case by (auto simp: list_ex_iff)
next
  case (Plus k)
  then have "\<forall>c\<in>set (drop (fst st) s). \<not> cmatch U k c"
    by (auto simp: list_ex_iff dest: in_set_dropD)
  then have "takeWhile (cmatch U k) (drop (fst st) s) = []"
    by (cases "drop (fst st) s") simp_all
  then show ?case by (simp add: run_def)
qed auto

lemma search_from_None: "(\<And>i. ms U s r (i, None) = []) \<Longrightarrow> search_from U r s is = None"
  by (induction "is") simp_all

lemma cannot_match_search: "cannot_match U s r \<Longrightarrow> search U r s = None"
  by (simp add: search_def search_from_None cannot_match_sound)

lemma search_from_Some:
  "search_from U r s is = Some m \<Longrightarrow>
     \<exists>e rest. m_start m \<in> set is \<and> ms U s r (m_start m, None) = e # rest \<and>
              m_end m = fst e \<and> m_group m = snd e"
  by (induction "is") (auto split: list.splits)

lemma search_Some:
  "search U r s = Some m \<Longrightarrow>
     \<exists>e rest. m_start m \<le> length s \<and> ms U s r (m_start m, None) = e # rest \<and>
              m_end m = fst e \<and> m_group m = snd e"
  unfolding search_def by (drule search_from_Some) auto

section \<open>The loops\<close>



lemma scan_pats_cannot:
  "list_all (cannot_match U line) pats \<Longrightarrow> scan_pats U pats line = None"
  by (induction pats) (simp_all add: cannot_match_search)

section \<open>Scenario 1, evaluated\<close>

lemmas eval_defs =
  search_def number_rx_def ascii_def run_def at_boundary_def is_word_def basic_ucd_def
  isspace_def

lemma scenario1_strip: "strip scenario1 = scenario1"
  by (simp add: strip_def scenario1_def scenario1_line1_def scenario1_line2_def
      scenario1_line3_def scenario1_line4_def isspace_def)

lemma scenario1_lines:
  "normalize_lines scenario1 = [scenario1_line1, scenario1_line2, scenario1_line3, scenario1_line4]"
  by (simp add: normalize_lines_def splitlines_def strip_def scenario1_def scenario1_line1_def
      scenario1_line2_def scenario1_line3_def scenario1_line4_def isspace_def is_linebreak_def)

lemma scenario1_price12:
  "scan_pats basic_ucd price_patterns scenario1_line1 = None"
  "scan_pats basic_ucd price_patterns scenario1_line2 = None"
  by (rule scan_pats_cannot,
      simp add: price_patterns_def number_rx_def ascii_def scenario1_line1_def scenario1_line2_def)+

lemma scenario1_price3:
  "scan_pats basic_ucd price_patterns scenario1_line3 = Some (38 / 10)"
  by (simp add: price_patterns_def scenario1_line3_def eval_defs to_float_def slice_def
      py_float_def digits_val_def)

lemma scenario1_price:
  "scan_lines basic_ucd price_patterns (normalize_lines scenario1) = Some (38 / 10)"
  unfolding scenario1_lines by (simp add: scenario1_price12 scenario1_price3)

lemma scenario1_spec_match:
  "search basic_ucd (hd spec_patterns) scenario1_line1 =
     Some \<lparr> m_start = 2, m_end = 6, m_group = None \<rparr>"
  by (simp add: spec_patterns_def scenario1_line1_def eval_defs)

lemma scenario1_spec:
  "find_spec basic_ucd (normalize_lines scenario1) = Some scenario1_line1"
proof -
  have "any_match basic_ucd spec_patterns scenario1_line1"
    using scenario1_spec_match by (simp add: any_match_def spec_patterns_def)
  then show ?thesis unfolding scenario1_lines by (simp add: find_spec_def)
qed

lemma scenario1_qty_lines:
  "scan_pats basic_ucd qty_patterns scenario1_line1 = None"
  "scan_pats basic_ucd qty_patterns scenario1_line2 = None"
  "scan_pats basic_ucd qty_patterns scenario1_line3 = None"
  "scan_pats basic_ucd qty_patterns scenario1_line4 = None"
  by (rule scan_pats_cannot,
      simp add: qty_patterns_def number_rx_def scenario1_line1_def scenario1_line2_def
        scenario1_line3_def scenario1_line4_def)+

lemma scenario1_qty:
  "scan_lines basic_ucd qty_patterns (normalize_lines scenario1) = None"
  unfolding scenario1_lines by (simp add: scenario1_qty_lines)

lemma scenario1_first: "hd (normalize_lines scenario1) = scenario1_line1"
  by (simp add: scenario1_lines)

lemma scenario1_joined:
  "join [0x20] (normalize_lines scenario1) =
     scenario1_line1 @ [0x20] @ scenario1_line2 @ [0x20] @ scenario1_line3 @ [0x20]
     @ scenario1_line4"
  by (simp add: scenario1_lines)

lemma scenario1_fillers:
  "foldl (\<lambda>cleaned w. remove_all w cleaned) scenario1_line1 noisy_words = scenario1_line1"
  by (simp add: noisy_words_def scenario1_line1_def)

lemma scenario1_sub: "re_sub basic_ucd unit_token_rx scenario1_line1 = [0x706F, 0x5E26]"
  by (simp add: re_sub_def unit_token_rx_def scenario1_line1_def eval_defs)

lemma scenario1_name: "clean_name basic_ucd scenario1_line1 = [0x706F, 0x5E26]"
  by (simp add: clean_name_def scenario1_fillers scenario1_sub strip_chars_def
      name_strip_chars_def)

lemma scenario1_currency:
  "\<not> (0x24 \<in> set scenario1 \<or> contains (ascii ''USD'') (upper basic_ucd scenario1))"
  by (simp add: scenario1_def scenario1_line1_def scenario1_line2_def scenario1_line3_def
      scenario1_line4_def upper_def basic_ucd_def ascii_def)

lemma round2_one: "round2 1 = 1"
  by (simp add: round2_def round_half_even_def)

lemma scenario1_score: "raw_score basic_ucd (normalize_lines scenario1) = 1"
  by (simp add: raw_score_def name_bonus_def scenario1_price scenario1_spec scenario1_qty
      scenario1_name scenario1_first)

lemma scenario1_some_lines: "normalize_lines (strip scenario1) \<noteq> []"
  by (simp add: scenario1_strip scenario1_lines)

lemma scenario1_record:
  "extract_procurement_fields basic_ucd scenario1 =
     \<lparr> item_name = Some [0x706F, 0x5E26],
       specification_field = Some scenario1_line1,
       quantity = None, unit_price = Some (38 / 10), currency = ascii ''CNY'',
       source_text = scenario1_line1 @ [0x20] @ scenario1_line2 @ [0x20] @ scenario1_line3
                     @ [0x20] @ scenario1_line4,
       confidence = 1 \<rparr>"
  unfolding extract_some_lines[OF scenario1_some_lines] scenario1_strip
  using scenario1_currency
  by (simp add: scenario1_price scenario1_spec scenario1_qty scenario1_name scenario1_score
      scenario1_first scenario1_joined round2_one)

text \<open>
  C8. On scenario 1 the specification is the whole first line, the unit price is 3.8,
  the currency is "CNY", the item name is the first line without its length token
  (the two characters U+706F U+5E26), the quantity is unset, and the confidence is
  the base plus the price, specification and item-name bonuses,
  0.50 + 0.20 + 0.15 + 0.15 = 1.00.
\<close>

theorem C8_scenario1:
  "specification_field (extract_procurement_fields basic_ucd scenario1) = Some scenario1_line1 \<and>
   unit_price (extract_procurement_fields basic_ucd scenario1) = Some (38 / 10) \<and>
   currency (extract_procurement_fields basic_ucd scenario1) = ascii ''CNY'' \<and>
   item_name (extract_procurement_fields basic_ucd scenario1) = Some [0x706F, 0x5E26] \<and>
   clean_name basic_ucd scenario1_line1 = [0x706F, 0x5E26] \<and>
   quantity (extract_procurement_fields basic_ucd scenario1) = None \<and>
   confidence (extract_procurement_fields basic_ucd scenario1)
     = max 0 (min 1 (round2 (50 / 100 + 20 / 100 + 15 / 100 + 15 / 100))) \<and>
   confidence (extract_procurement_fields basic_ucd scenario1) = 1"
  by (simp add: scenario1_record scenario1_name round2_one)

theorem C8_scenario1_witness:
  "unit_price (extract_procurement_fields basic_ucd scenario1) = Some (19 / 5)"
  using C8_scenario1 by simp


section \<open>Input without text\<close>

text \<open>
  C1. For every input that is empty or consists of white space only, the record has all
  four optional fields unset, confidence 0, the trimmed input (which is empty) as source
  text and the default currency "CNY"; it is the default record, to which no pass has
  contributed.
\<close>

theorem C1_blank_input:
  assumes "list_all isspace raw"
  shows "extract_procurement_fields U raw =
           \<lparr> item_name = None, specification_field = None, quantity = None, unit_price = None,
             currency = ascii ''CNY'', source_text = strip raw, confidence = 0 \<rparr> \<and>
         extract_procurement_fields U raw = (default_record (strip raw) [])\<lparr> confidence := 0 \<rparr> \<and>
         strip raw = []"
proof -
  from assms have s: "strip raw = []" by (simp add: strip_Nil_iff list_all_iff)
  then have l: "normalize_lines (strip raw) = []" using normalize_lines_Nil_iff by blast
  show ?thesis
    unfolding extract_no_lines[OF l] using s by (simp add: default_record_def)
qed

theorem C1_blank_input_witness:
  "list_all isspace blank_input \<and>
   extract_procurement_fields basic_ucd blank_input =
     \<lparr> item_name = None, specification_field = None, quantity = None, unit_price = None,
       currency = ascii ''CNY'', source_text = [], confidence = 0 \<rparr>"
proof -
  have b: "list_all isspace blank_input"
    by (simp add: blank_input_def isspace_def)
  from C1_blank_input[OF b, of basic_ucd] b show ?thesis by simp
qed

section \<open>Input with text\<close>

text \<open>
  C9. For every input with at least one non-empty line after normalisation, the item
  name is set, and it is not the empty string: it is the cleaned first line or, when
  cleaning leaves nothing, the first line itself.
\<close>

theorem C9_item_name_set:
  assumes "normalize_lines (strip raw) \<noteq> []"
  shows "item_name (extract_procurement_fields U raw) \<noteq> None \<and>
         item_name (extract_procurement_fields U raw) \<noteq> Some [] \<and>
         item_name (extract_procurement_fields U raw) =
           Some (if clean_name U (hd (normalize_lines (strip raw))) \<noteq> []
                 then clean_name U (hd (normalize_lines (strip raw)))
                 else hd (normalize_lines (strip raw)))"
proof -
  from assms have "hd (normalize_lines (strip raw)) \<in> set (normalize_lines (strip raw))"
    by simp
  then have "hd (normalize_lines (strip raw)) \<noteq> []"
    by (rule normalize_lines_nonempty)
  then show ?thesis
    unfolding extract_some_lines[OF assms] by simp
qed

theorem C9_item_name_set_witness:
  "normalize_lines (strip scenario1) \<noteq> [] \<and>
   item_name (extract_procurement_fields basic_ucd scenario1) = Some [0x706F, 0x5E26]"
  using C9_item_name_set[OF scenario1_some_lines, of basic_ucd] scenario1_some_lines
  by (simp add: scenario1_record)

text \<open>
  C10. For every input with at least one non-empty line after normalisation, the
  confidence is at least 0.55, hence not 0.
\<close>

theorem C10_confidence_floor:
  assumes "normalize_lines (strip raw) \<noteq> []"
  shows "55 / 100 \<le> confidence (extract_procurement_fields U raw) \<and>
         confidence (extract_procurement_fields U raw) \<noteq> 0"
proof -
  have "55 / 100 \<le> confidence (extract_procurement_fields U raw)"
    unfolding extract_some_lines[OF assms] using score_lower by simp
  then show ?thesis by auto
qed

theorem C10_confidence_floor_witness:
  "normalize_lines (strip scenario1) \<noteq> [] \<and>
   55 / 100 \<le> confidence (extract_procurement_fields basic_ucd scenario1)"
  using C10_confidence_floor[OF scenario1_some_lines, of basic_ucd] scenario1_some_lines
  by simp

section \<open>The source text\<close>

lemma join_nonempty: "ls \<noteq> [] \<Longrightarrow> hd ls \<noteq> [] \<Longrightarrow> join sep ls \<noteq> []"
  by (induction sep ls rule: join.induct) simp_all

lemma source_text_eq:
  "source_text (extract_procurement_fields U raw) =
     (if normalize_lines (strip raw) \<noteq> [] then join [0x20] (normalize_lines (strip raw))
      else strip raw)"
proof (cases "normalize_lines (strip raw) = []")
  case True
  then show ?thesis by (simp add: extract_no_lines)
next
  case False
  then show ?thesis by (simp add: extract_some_lines)
qed

text \<open>
  C4, as the claim states it, fails: an input of one space is not empty, and its source
  text is the empty string.
\<close>

theorem C4_source_text_counterexample:
  "source_text (extract_procurement_fields basic_ucd [0x20]) = [] \<and> [0x20] \<noteq> ([] :: ustr)"
proof -
  have "strip [0x20] = []" by (simp add: strip_def isspace_def)
  then have "normalize_lines (strip [0x20]) = []" using normalize_lines_Nil_iff by blast
  then show ?thesis by (simp add: extract_no_lines \<open>strip [0x20] = []\<close>)
qed

text \<open>
  C4, amended. For every input the source text is the trimmed non-empty lines joined by
  single spaces, or the trimmed input if no line survives; it is the empty string
  exactly when the input is empty or consists of white space only.
\<close>

theorem C4_source_text:
  "source_text (extract_procurement_fields U raw) =
     (if normalize_lines (strip raw) \<noteq> [] then join [0x20] (normalize_lines (strip raw))
      else strip raw) \<and>
   (source_text (extract_procurement_fields U raw) = [] \<longleftrightarrow> list_all isspace raw)"
proof (cases "normalize_lines (strip raw) = []")
  case True
  then have "strip raw = []" using normalize_lines_Nil_iff by blast
  with True show ?thesis
    by (simp add: source_text_eq strip_Nil_iff[symmetric] list_all_iff)
next
  case False
  then have "hd (normalize_lines (strip raw)) \<in> set (normalize_lines (strip raw))" by simp
  then have "hd (normalize_lines (strip raw)) \<noteq> []" by (rule normalize_lines_nonempty)
  with False have j: "join [0x20] (normalize_lines (strip raw)) \<noteq> []" by (rule join_nonempty)
  from False have "strip raw \<noteq> []" using normalize_lines_Nil_iff by blast
  then have "\<not> list_all isspace raw" by (simp add: strip_Nil_iff list_all_iff)
  with False j show ?thesis by (simp add: source_text_eq)
qed

theorem C4_source_text_witness:
  "source_text (extract_procurement_fields basic_ucd scenario1) =
     scenario1_line1 @ [0x20] @ scenario1_line2 @ [0x20] @ scenario1_line3 @ [0x20]
     @ scenario1_line4 \<and>
   \<not> list_all isspace scenario1 \<and>
   source_text (extract_procurement_fields basic_ucd blank_input) = [] \<and>
   list_all isspace blank_input"
proof -
  have b: "list_all isspace blank_input"
    by (simp add: blank_input_def isspace_def)
  have 1: "source_text (extract_procurement_fields basic_ucd blank_input) = []"
    using C4_source_text[of basic_ucd blank_input] b by blast
  have "source_text (extract_procurement_fields basic_ucd scenario1) \<noteq> []"
    by (simp add: scenario1_record scenario1_line1_def)
  then have 2: "\<not> list_all isspace scenario1"
    using C4_source_text[of basic_ucd scenario1] by blast
  from 1 2 b show ?thesis by (simp add: scenario1_record)
qed

section \<open>The currency\<close>








section \<open>The text of the named group is a number\<close>

lemma those_map_Some:
  "(\<forall>x\<in>set xs. f x \<noteq> None) \<Longrightarrow> those (map f xs) \<noteq> None"
  by (induction xs) auto

lemma run_take:
  assumes "n \<le> run U k s i"
  shows "\<forall>c\<in>set (take n (drop i s)). cmatch U k c" and "length (take n (drop i s)) = n"
proof -
  let ?xs = "drop i s"
  let ?L = "length (takeWhile (cmatch U k) ?xs)"
  from assms have n: "n \<le> ?L" by (simp add: run_def)
  have "take n ?xs = take n (take ?L ?xs)" using n by (simp add: min_def)
  also have "take ?L ?xs = takeWhile (cmatch U k) ?xs"
    by (rule takeWhile_eq_take[symmetric])
  finally have e: "take n ?xs = take n (takeWhile (cmatch U k) ?xs)" .
  show "\<forall>c\<in>set (take n ?xs). cmatch U k c"
    unfolding e by (auto dest: in_set_takeD set_takeWhileD)
  have "?L \<le> length ?xs" by (rule length_takeWhile_le)
  with n show "length (take n ?xs) = n" by simp
qed

lemma py_float_digits:
  assumes "decimal U 0x2E = None" "ds \<noteq> []" "\<forall>c\<in>set ds. decimal U c \<noteq> None"
  shows "py_float U ds \<noteq> None"
proof -
  from assms have nd: "\<forall>c\<in>set ds. c \<noteq> 0x2E" by auto
  then have t: "takeWhile (\<lambda>c. c \<noteq> 0x2E) ds = ds" "dropWhile (\<lambda>c. c \<noteq> 0x2E) ds = []"
    by simp_all
  from assms(3) obtain vs where vs: "those (map (decimal U) ds) = Some vs"
    using those_map_Some[of ds "decimal U"] by auto
  then have "length vs = length ds"
    by (induction ds arbitrary: vs) (auto split: option.splits)
  with assms(2) have "vs \<noteq> []" by auto
  then show ?thesis by (simp add: py_float_def t vs)
qed

lemma those_map_length: "those (map f xs) = Some vs \<Longrightarrow> length vs = length xs"
  by (induction xs arbitrary: vs) (auto split: option.splits)

lemma py_float_fraction:
  assumes "decimal U 0x2E = None" "ds \<noteq> []" "\<forall>c\<in>set ds. decimal U c \<noteq> None"
    "fs \<noteq> []" "\<forall>c\<in>set fs. decimal U c \<noteq> None"
  shows "py_float U (ds @ [0x2E] @ fs) \<noteq> None"
proof -
  from assms have nd: "\<forall>c\<in>set ds. c \<noteq> 0x2E" by auto
  then have t: "takeWhile (\<lambda>c. c \<noteq> 0x2E) (ds @ 0x2E # fs) = ds"
      "dropWhile (\<lambda>c. c \<noteq> 0x2E) (ds @ 0x2E # fs) = 0x2E # fs"
    by (simp_all add: takeWhile_append dropWhile_append)
  from assms(3) obtain vs where vs: "those (map (decimal U) ds) = Some vs"
    using those_map_Some[of ds "decimal U"] by auto
  from assms(5) obtain ws where ws: "those (map (decimal U) fs) = Some ws"
    using those_map_Some[of fs "decimal U"] by auto
  from vs ws assms(2,4) have "vs \<noteq> []" "ws \<noteq> []"
    by (auto dest: those_map_length)
  then show ?thesis by (simp add: py_float_def t vs ws)
qed

lemma take_add_drop: "take (a + b) xs = take a xs @ take b (drop a xs)"
  by (rule take_add)

lemma ms_number:
  assumes dot: "decimal U 0x2E = None" and e: "e \<in> set (ms U s number_rx st)"
  shows "py_float U (slice s (fst st) (fst e)) \<noteq> None \<and> snd e = snd st"
proof -
  let ?i = "fst st"
  from e obtain n where n: "1 \<le> n" "n \<le> run U CDigit s ?i"
    and e1: "e \<in> set (ms U s (Opt (Seq (Lit [0x2E]) (Plus CDigit))) (?i + n, snd st))"
    by (auto simp: number_rx_def)
  let ?ds = "take n (drop ?i s)"
  from run_take[OF n(2)] n(1) have ds: "\<forall>c\<in>set ?ds. decimal U c \<noteq> None" "?ds \<noteq> []"
    by auto
  from e1 consider (skip) "e = (?i + n, snd st)"
    | (frac) m where "take 1 (drop (?i + n) s) = [0x2E]" "1 \<le> m"
        "m \<le> run U CDigit s (?i + n + 1)" "e = (?i + n + 1 + m, snd st)"
    by (auto split: if_splits)
  then show ?thesis
  proof cases
    case skip
    then show ?thesis using py_float_digits[OF dot ds(2) ds(1)] by (simp add: slice_def)
  next
    case frac
    let ?fs = "take m (drop (?i + n + 1) s)"
    from run_take[OF frac(3)] frac(2) have fs: "\<forall>c\<in>set ?fs. decimal U c \<noteq> None" "?fs \<noteq> []"
      by auto
    have a: "take (n + (1 + m)) (drop ?i s) =
        ?ds @ take 1 (drop n (drop ?i s)) @ take m (drop 1 (drop n (drop ?i s)))"
      by (simp only: take_add)
    have b: "drop n (drop ?i s) = drop (?i + n) s" "drop 1 (drop n (drop ?i s)) = drop (?i + n + 1) s"
      by (simp_all add: add.commute)
    have c: "fst e - ?i = n + (1 + m)" using frac by simp
    have "slice s ?i (fst e) = ?ds @ [0x2E] @ ?fs"
      unfolding slice_def c a b using frac(1) by simp
    then show ?thesis
      using py_float_fraction[OF dot ds(2) ds(1) fs(2) fs(1)] frac by simp
  qed
qed

lemma ms_keeps_group:
  "e \<in> set (ms U s r st) \<Longrightarrow> snd st \<noteq> None \<Longrightarrow> snd e \<noteq> None"
  by (induction r arbitrary: st e) (auto split: if_splits)

lemma ms_sets_group:
  "e \<in> set (ms U s r st) \<Longrightarrow> sets_group r \<Longrightarrow> snd e \<noteq> None"
proof (induction r arbitrary: st e)
  case (Seq r1 r2)
  from Seq.prems(1) obtain st1 where st1: "st1 \<in> set (ms U s r1 st)" "e \<in> set (ms U s r2 st1)"
    by auto
  show ?case
  proof (cases "sets_group r1")
    case True
    with st1(1) have "snd st1 \<noteq> None" by (rule Seq.IH(1))
    with st1(2) show ?thesis by (rule ms_keeps_group)
  next
    case False
    with Seq.prems(2) have "sets_group r2" by simp
    with st1(2) show ?thesis by (rule Seq.IH(2))
  qed
qed (auto split: if_splits)

lemma ms_valid_group:
  assumes dot: "decimal U 0x2E = None"
  shows "e \<in> set (ms U s r st) \<Longrightarrow> groups_are_numbers r \<Longrightarrow> valid_group U s (snd st)
         \<Longrightarrow> valid_group U s (snd e)"
proof (induction r arbitrary: st e)
  case (Grp r)
  then obtain e' where e': "e' \<in> set (ms U s number_rx st)" "e = (fst e', Some (fst st, fst e'))"
    by auto
  from ms_number[OF dot e'(1)] e'(2) show ?case by (simp add: valid_group_def)
qed (auto split: if_splits)

text \<open>On a match of a pattern whose one group is the number pattern and lies on every
  way through it, the conversion of the group succeeds.\<close>

lemma to_float_succeeds:
  assumes "decimal U 0x2E = None" "groups_are_numbers p" "sets_group p"
    "search U p line = Some m"
  shows "to_float U line m \<noteq> None"
proof -
  from search_Some[OF assms(4)] obtain e rest where
    e: "ms U line p (m_start m, None) = e # rest" "m_group m = snd e" by blast
  then have i: "e \<in> set (ms U line p (m_start m, None))" by simp
  from ms_sets_group[OF i assms(3)] obtain a b where ab: "snd e = Some (a, b)" by auto
  from ms_valid_group[OF assms(1) i assms(2)] ab
  have "py_float U (slice line a b) \<noteq> None" by (simp add: valid_group_def)
  with e(2) ab show ?thesis by (simp add: to_float_def)
qed

lemma price_patterns_groups:
  "p \<in> set price_patterns \<Longrightarrow> groups_are_numbers p \<and> sets_group p"
  by (auto simp: price_patterns_def)

lemma qty_patterns_groups:
  "p \<in> set qty_patterns \<Longrightarrow> groups_are_numbers p \<and> sets_group p"
  by (auto simp: qty_patterns_def)

section \<open>The loops find the first match\<close>

lemma all_matches_Cons:
  "all_matches U pats (line # lines) = all_matches U pats [line] @ all_matches U pats lines"
  by (simp add: all_matches_def)

lemma all_matches_pats_Cons:
  "all_matches U (p # ps) [line] =
     (case search U p line of None \<Rightarrow> [] | Some m \<Rightarrow> [(line, m)]) @ all_matches U ps [line]"
  by (simp add: all_matches_def)

lemma scan_pats_first:
  "scan_pats U pats line =
     (case first_match U pats [line] of None \<Rightarrow> None | Some (l, m) \<Rightarrow> to_float U l m)"
proof (induction pats)
  case Nil
  then show ?case by (simp add: first_match_def all_matches_def)
next
  case (Cons p ps)
  then show ?case
    by (cases "search U p line") (simp_all add: first_match_def all_matches_pats_Cons)
qed

lemma first_match_line:
  "first_match U pats [line] = Some (l, m) \<Longrightarrow> l = line \<and> (\<exists>p\<in>set pats. search U p line = Some m)"
proof (induction pats)
  case Nil
  then show ?case by (simp add: first_match_def all_matches_def)
next
  case (Cons p ps)
  then show ?case
    by (cases "search U p line") (auto simp: first_match_def all_matches_pats_Cons)
qed

lemma first_match_Cons:
  "first_match U pats (line # lines) =
     (case first_match U pats [line] of None \<Rightarrow> first_match U pats lines | Some x \<Rightarrow> Some x)"
  unfolding first_match_def all_matches_Cons[of U pats line lines]
  by (cases "all_matches U pats [line]") simp_all

lemma scan_lines_first:
  assumes "\<And>p line m. p \<in> set pats \<Longrightarrow> search U p line = Some m \<Longrightarrow> to_float U line m \<noteq> None"
  shows "scan_lines U pats lines =
     (case first_match U pats lines of None \<Rightarrow> None | Some (l, m) \<Rightarrow> to_float U l m)"
proof (induction lines)
  case Nil
  then show ?case by (simp add: first_match_def all_matches_def)
next
  case (Cons line lines)
  show ?case
  proof (cases "first_match U pats [line]")
    case None
    then have "scan_pats U pats line = None" by (simp add: scan_pats_first)
    with None Cons show ?thesis by (simp add: first_match_Cons[of U pats line lines])
  next
    case (Some x)
    obtain l m where x: "x = (l, m)" by (cases x)
    from first_match_line[OF Some[unfolded x]] obtain p
      where p: "l = line" "p \<in> set pats" "search U p line = Some m" by blast
    from assms[OF p(2) p(3)] p(1) obtain v where "to_float U l m = Some v"
      by (cases "to_float U l m") simp_all
    with Some x show ?thesis by (simp add: first_match_Cons[of U pats line lines] scan_pats_first)
  qed
qed

lemma first_match_found:
  assumes "\<And>p line m. p \<in> set pats \<Longrightarrow> search U p line = Some m \<Longrightarrow> to_float U line m \<noteq> None"
  shows "(scan_lines U pats lines = None) = (first_match U pats lines = None)"
proof (induction lines)
  case Nil
  then show ?case by (simp add: first_match_def all_matches_def)
next
  case (Cons line lines)
  show ?case
  proof (cases "first_match U pats [line]")
    case None
    then have "scan_pats U pats line = None" by (simp add: scan_pats_first)
    with None Cons show ?thesis by (simp add: first_match_Cons[of U pats line lines])
  next
    case (Some x)
    obtain l m where x: "x = (l, m)" by (cases x)
    from first_match_line[OF Some[unfolded x]] obtain p
      where p: "l = line" "p \<in> set pats" "search U p line = Some m" by blast
    from assms[OF p(2) p(3)] p(1) obtain v where "to_float U l m = Some v"
      by (cases "to_float U l m") simp_all
    with Some x show ?thesis by (simp add: first_match_Cons[of U pats line lines] scan_pats_first)
  qed
qed

section \<open>The price pass\<close>

lemma price_to_float:
  "decimal U 0x2E = None \<Longrightarrow> p \<in> set price_patterns \<Longrightarrow> search U p line = Some m
   \<Longrightarrow> to_float U line m \<noteq> None"
  using to_float_succeeds price_patterns_groups by blast

lemma first_match_cannot:
  "list_all (cannot_match U line) pats \<Longrightarrow> first_match U pats [line] = None"
  by (induction pats) (simp_all add: first_match_def all_matches_def cannot_match_search)

lemma first_match_hit:
  "search U p line = Some m \<Longrightarrow> first_match U (p # ps) [line] = Some (line, m)"
  by (simp add: first_match_def all_matches_def)

text \<open>
  C6. Within a line the price patterns are tried in order, and the first that matches
  gives the value: the conversion of the text of its group, or nothing if the
  conversion fails (no error is raised). The lines are scanned in order. As the full
  stop is no decimal digit, the text of a group always converts, so the unit price is
  the conversion of the first match in line-major, pattern-minor order, and it is set
  exactly when there is a match. When it is set, the pass adds 0.20 to the confidence.
\<close>

theorem C6_price_first_match:
  assumes "decimal U 0x2E = None"
  shows "scan_pats U pats line =
           (case first_match U pats [line] of None \<Rightarrow> None | Some (l, m) \<Rightarrow> to_float U l m) \<and>
         unit_price (extract_procurement_fields U raw) =
           (case first_match U price_patterns (normalize_lines (strip raw)) of
              None \<Rightarrow> None | Some (l, m) \<Rightarrow> to_float U l m) \<and>
         (unit_price (extract_procurement_fields U raw) = None) =
           (first_match U price_patterns (normalize_lines (strip raw)) = None) \<and>
         price_pass U lines r =
           (case first_match U price_patterns lines of
              None \<Rightarrow> r
            | Some (l, m) \<Rightarrow>
                r\<lparr> unit_price := to_float U l m, confidence := confidence r + 20 / 100 \<rparr>)"
proof -
  note tf = price_to_float[OF assms]
  have s: "scan_lines U price_patterns ls =
      (case first_match U price_patterns ls of None \<Rightarrow> None | Some (l, m) \<Rightarrow> to_float U l m)"
    for ls by (rule scan_lines_first) (rule tf)
  have n: "(scan_lines U price_patterns ls = None) = (first_match U price_patterns ls = None)"
    for ls by (rule first_match_found) (rule tf)
  have u: "unit_price (extract_procurement_fields U raw) =
      scan_lines U price_patterns (normalize_lines (strip raw))"
  proof (cases "normalize_lines (strip raw) = []")
    case True
    then show ?thesis by (simp add: extract_no_lines)
  next
    case False
    then show ?thesis by (simp add: extract_some_lines)
  qed
  have p: "price_pass U lines r =
      (case first_match U price_patterns lines of
         None \<Rightarrow> r
       | Some (l, m) \<Rightarrow> r\<lparr> unit_price := to_float U l m, confidence := confidence r + 20 / 100 \<rparr>)"
  proof (cases "first_match U price_patterns lines")
    case None
    with n[of lines] show ?thesis by (simp add: price_pass_def)
  next
    case (Some x)
    obtain l m where x: "x = (l, m)" by (cases x)
    from Some n[of lines] obtain v where v: "scan_lines U price_patterns lines = Some v"
      by (cases "scan_lines U price_patterns lines") simp_all
    with s[of lines] Some x have "to_float U l m = Some v" by simp
    with v Some x show ?thesis by (simp add: price_pass_def)
  qed
  show ?thesis
    unfolding u using s n p scan_pats_first by blast
qed

lemma scenario1_price_match:
  "search basic_ucd (hd price_patterns) scenario1_line3 =
     Some \<lparr> m_start = 0, m_end = 4, m_group = Some (0, 3) \<rparr>"
  by (simp add: price_patterns_def scenario1_line3_def eval_defs)

lemma scenario1_first_match:
  "first_match basic_ucd price_patterns (normalize_lines scenario1) =
     Some (scenario1_line3, \<lparr> m_start = 0, m_end = 4, m_group = Some (0, 3) \<rparr>)"
proof -
  have 1: "first_match basic_ucd price_patterns [scenario1_line1] = None"
    by (rule first_match_cannot)
      (simp add: price_patterns_def number_rx_def ascii_def scenario1_line1_def)
  have 2: "first_match basic_ucd price_patterns [scenario1_line2] = None"
    by (rule first_match_cannot)
      (simp add: price_patterns_def number_rx_def ascii_def scenario1_line2_def)
  have 3: "first_match basic_ucd price_patterns [scenario1_line3] =
      Some (scenario1_line3, \<lparr> m_start = 0, m_end = 4, m_group = Some (0, 3) \<rparr>)"
    using scenario1_price_match first_match_hit[of basic_ucd "hd price_patterns" scenario1_line3 _ "tl price_patterns"]
    by (simp add: price_patterns_def)
  show ?thesis
    unfolding scenario1_lines
      first_match_Cons[of basic_ucd price_patterns scenario1_line1
        "[scenario1_line2, scenario1_line3, scenario1_line4]"]
      first_match_Cons[of basic_ucd price_patterns scenario1_line2
        "[scenario1_line3, scenario1_line4]"]
      first_match_Cons[of basic_ucd price_patterns scenario1_line3 "[scenario1_line4]"]
      1 2 3
    by simp
qed

theorem C6_price_first_match_witness:
  "decimal basic_ucd 0x2E = None \<and>
   first_match basic_ucd price_patterns (normalize_lines (strip scenario1)) =
     Some (scenario1_line3, \<lparr> m_start = 0, m_end = 4, m_group = Some (0, 3) \<rparr>) \<and>
   to_float basic_ucd scenario1_line3 \<lparr> m_start = 0, m_end = 4, m_group = Some (0, 3) \<rparr>
     = Some (38 / 10) \<and>
   unit_price (extract_procurement_fields basic_ucd scenario1) = Some (38 / 10)"
proof -
  have d: "decimal basic_ucd 0x2E = None" by (simp add: basic_ucd_def)
  have f: "first_match basic_ucd price_patterns (normalize_lines (strip scenario1)) =
     Some (scenario1_line3, \<lparr> m_start = 0, m_end = 4, m_group = Some (0, 3) \<rparr>)"
    by (simp add: scenario1_strip scenario1_first_match)
  have "unit_price (extract_procurement_fields basic_ucd scenario1) =
      to_float basic_ucd scenario1_line3 \<lparr> m_start = 0, m_end = 4, m_group = Some (0, 3) \<rparr>"
    using C6_price_first_match[OF d, of "[]" "[]" scenario1] by (simp add: f)
  moreover have "to_float basic_ucd scenario1_line3
      \<lparr> m_start = 0, m_end = 4, m_group = Some (0, 3) \<rparr> = Some (38 / 10)"
    by (simp add: to_float_def slice_def scenario1_line3_def py_float_def basic_ucd_def
        digits_val_def)
  ultimately show ?thesis using d f by simp
qed

section \<open>The item name\<close>

lemma dropWhile_rev_last:
  "dropWhile P (rev xs) \<noteq> [] \<Longrightarrow> last (dropWhile P (rev xs)) = hd xs"
  by (induction xs) (auto simp: dropWhile_append split: if_splits)

lemma strip_chars_ends:
  "strip_chars cs s = [] \<or> (hd (strip_chars cs s) \<notin> set cs \<and> last (strip_chars cs s) \<notin> set cs)"
proof (cases "strip_chars cs s = []")
  case True
  then show ?thesis by simp
next
  case False
  define a where "a = dropWhile (\<lambda>c. c \<in> set cs) s"
  define b where "b = dropWhile (\<lambda>c. c \<in> set cs) (rev a)"
  have s: "strip_chars cs s = rev b" by (simp add: strip_chars_def a_def b_def)
  with False have b: "b \<noteq> []" by simp
  have "a \<noteq> []"
  proof
    assume "a = []"
    then have "b = []" by (simp add: b_def)
    with b show False by simp
  qed
  then have 2: "hd a \<notin> set cs" unfolding a_def by (rule hd_dropWhile)
  have 1: "hd b \<notin> set cs" using b unfolding b_def by (rule hd_dropWhile)
  have "last b = hd a" using b unfolding b_def by (rule dropWhile_rev_last)
  with 1 2 b show ?thesis unfolding s by (simp add: hd_rev last_rev)
qed

lemma tab_input_lines: "normalize_lines (strip tab_input) = [tab_input]"
  by (simp add: normalize_lines_def splitlines_def strip_def tab_input_def isspace_def
      is_linebreak_def)

lemma tab_input_fillers:
  "foldl (\<lambda>cleaned w. remove_all w cleaned) tab_input noisy_words = tab_input"
  by (simp add: noisy_words_def tab_input_def)

lemma tab_input_sub: "re_sub basic_ucd unit_token_rx tab_input = [0x09]"
  by (simp add: re_sub_def unit_token_rx_def tab_input_def eval_defs)

lemma tab_input_name: "clean_name basic_ucd tab_input = [0x09]"
  by (simp add: clean_name_def tab_input_fillers tab_input_sub strip_chars_def
      name_strip_chars_def)

lemma tab_input_spec: "find_spec basic_ucd (normalize_lines (strip tab_input)) = Some tab_input"
proof -
  have "search basic_ucd (spec_patterns ! 2) tab_input =
      Some \<lparr> m_start = 0, m_end = 2, m_group = None \<rparr>"
    by (simp add: spec_patterns_def tab_input_def eval_defs)
  then have "any_match basic_ucd spec_patterns tab_input"
    by (simp add: any_match_def spec_patterns_def)
  then show ?thesis unfolding tab_input_lines by (simp add: find_spec_def)
qed

lemma tab_input_price:
  "scan_lines basic_ucd price_patterns (normalize_lines (strip tab_input)) = None"
proof -
  have "scan_pats basic_ucd price_patterns tab_input = None"
    by (rule scan_pats_cannot)
      (simp add: price_patterns_def number_rx_def ascii_def tab_input_def)
  then show ?thesis unfolding tab_input_lines by simp
qed

lemma tab_input_qty:
  "scan_lines basic_ucd qty_patterns (normalize_lines (strip tab_input)) = None"
proof -
  have "scan_pats basic_ucd qty_patterns tab_input = None"
    by (rule scan_pats_cannot)
      (simp add: qty_patterns_def number_rx_def tab_input_def)
  then show ?thesis unfolding tab_input_lines by simp
qed

lemma tab_input_first: "hd (normalize_lines (strip tab_input)) = tab_input"
  by (simp add: tab_input_lines)

lemma round2_80: "round2 (4 / 5) = 4 / 5"
  by (simp add: round2_def round_half_even_def)

text \<open>
  C7, as the claim states it, fails. The first line "5W", tab, "5W" is cleaned to a
  lone tab: white space, but not the space that the source trims. So the cleaned
  string is not empty and becomes the item name, with the bonus 0.15 (confidence
  0.50 + 0.15 + 0.15); trimming white space would have left nothing, and the item name
  would have been the first line with the bonus 0.05.
\<close>

theorem C7_item_name_counterexample:
  "item_name (extract_procurement_fields basic_ucd tab_input) = Some [0x09] \<and>
   isspace 0x09 \<and>
   confidence (extract_procurement_fields basic_ucd tab_input) = 80 / 100 \<and>
   hd (normalize_lines (strip tab_input)) = tab_input \<and>
   clean_name_trimming_blanks basic_ucd tab_input = []"
proof -
  have l: "normalize_lines (strip tab_input) \<noteq> []" by (simp add: tab_input_lines)
  have c: "clean_name_trimming_blanks basic_ucd tab_input = []"
    by (simp add: clean_name_trimming_blanks_def tab_input_fillers tab_input_sub isspace_def)
  have s: "raw_score basic_ucd (normalize_lines (strip tab_input)) = 4 / 5"
    by (simp add: raw_score_def name_bonus_def tab_input_price tab_input_spec tab_input_qty
        tab_input_name tab_input_first)
  show ?thesis
    unfolding extract_some_lines[OF l]
    by (simp add: tab_input_name tab_input_first c s round2_80 isspace_def)
qed

text \<open>
  C7, amended. The item name is read from the first line alone. The filler phrases are
  removed one after the other in the order of the list, then every number followed by
  a length or power unit is cut out, then the ends are trimmed of the space U+0020
  (no other white space) and of the punctuation. If something is left it is the item
  name and the pass adds 0.15; otherwise the item name is the first line as it was and
  the pass adds 0.05.
\<close>

theorem C7_item_name:
  assumes "normalize_lines (strip raw) = first # rest"
  shows "item_name (extract_procurement_fields U raw) =
           Some (if clean_name U first \<noteq> [] then clean_name U first else first) \<and>
         clean_name U first =
           strip_chars [0x20, 0x2C, 0xFF0C, 0x3A, 0xFF1A, 0x2D, 0x2014, 0x2F]
             (re_sub U unit_token_rx
               (remove_all [0x62A5, 0x4E2A, 0x4EF7] (remove_all [0x600E, 0x4E48, 0x6837]
               (remove_all [0x884C, 0x4E0D, 0x884C] (remove_all [0x53EF, 0x4EE5, 0x5417]
               (remove_all [0x770B, 0x770B] (remove_all [0x8981, 0x4E0D, 0x8981]
               (remove_all [0x4FBF, 0x5B9C] (remove_all [0x4EF7, 0x683C] first))))))))) \<and>
         (clean_name U first = [] \<or>
            (hd (clean_name U first) \<notin> set name_strip_chars \<and>
             last (clean_name U first) \<notin> set name_strip_chars)) \<and>
         name_pass U first r =
           (if clean_name U first \<noteq> []
            then r\<lparr> item_name := Some (clean_name U first), confidence := confidence r + 15 / 100 \<rparr>
            else r\<lparr> item_name := Some first, confidence := confidence r + 5 / 100 \<rparr>)"
proof -
  have 1: "item_name (extract_procurement_fields U raw) =
      Some (if clean_name U first \<noteq> [] then clean_name U first else first)"
    unfolding extract_lines[OF assms] by simp
  have 2: "clean_name U first =
           strip_chars [0x20, 0x2C, 0xFF0C, 0x3A, 0xFF1A, 0x2D, 0x2014, 0x2F]
             (re_sub U unit_token_rx
               (remove_all [0x62A5, 0x4E2A, 0x4EF7] (remove_all [0x600E, 0x4E48, 0x6837]
               (remove_all [0x884C, 0x4E0D, 0x884C] (remove_all [0x53EF, 0x4EE5, 0x5417]
               (remove_all [0x770B, 0x770B] (remove_all [0x8981, 0x4E0D, 0x8981]
               (remove_all [0x4FBF, 0x5B9C] (remove_all [0x4EF7, 0x683C] first)))))))))"
    by (simp add: clean_name_def noisy_words_def name_strip_chars_def)
  have 3: "clean_name U first = [] \<or>
            (hd (clean_name U first) \<notin> set name_strip_chars \<and>
             last (clean_name U first) \<notin> set name_strip_chars)"
    unfolding clean_name_def by (rule strip_chars_ends)
  have 4: "name_pass U first r =
           (if clean_name U first \<noteq> []
            then r\<lparr> item_name := Some (clean_name U first), confidence := confidence r + 15 / 100 \<rparr>
            else r\<lparr> item_name := Some first, confidence := confidence r + 5 / 100 \<rparr>)"
    by (simp add: name_pass_def Let_def)
  from 1 2 3 4 show ?thesis by blast
qed

lemma watt_input_lines: "normalize_lines (strip watt_input) = [watt_input]"
  by (simp add: normalize_lines_def splitlines_def strip_def watt_input_def isspace_def
      is_linebreak_def)

lemma watt_input_name: "clean_name basic_ucd watt_input = []"
proof -
  have "foldl (\<lambda>cleaned w. remove_all w cleaned) watt_input noisy_words = watt_input"
    by (simp add: noisy_words_def watt_input_def)
  moreover have "re_sub basic_ucd unit_token_rx watt_input = []"
    by (simp add: re_sub_def unit_token_rx_def watt_input_def eval_defs)
  ultimately show ?thesis by (simp add: clean_name_def strip_chars_def)
qed

theorem C7_item_name_witness:
  "normalize_lines (strip scenario1) =
     scenario1_line1 # [scenario1_line2, scenario1_line3, scenario1_line4] \<and>
   item_name (extract_procurement_fields basic_ucd scenario1) = Some [0x706F, 0x5E26] \<and>
   normalize_lines (strip watt_input) = watt_input # [] \<and>
   item_name (extract_procurement_fields basic_ucd watt_input) = Some watt_input"
proof -
  have a: "normalize_lines (strip scenario1) =
     scenario1_line1 # [scenario1_line2, scenario1_line3, scenario1_line4]"
    by (simp add: scenario1_strip scenario1_lines)
  have b: "normalize_lines (strip watt_input) = watt_input # []"
    by (simp add: watt_input_lines)
  from C7_item_name[OF a, of basic_ucd] C7_item_name[OF b, of basic_ucd] a b
  show ?thesis by (simp add: scenario1_name watt_input_name)
qed

section \<open>Quantity and specification\<close>































end
